theory Spec2Isabelle
  imports Complex_Main "HOL-Library.Char_ord" "HOL-Library.List_Lexorder"
begin

chapter \<open>The model of the backend\<close>

section \<open>Shared Python values\<close>

text \<open>
  Exceptions carry the text that \<open>str(e)\<close> gives. \<open>RequestError\<close> stands for
  \<open>httpx.RequestError\<close> and its subclasses (connection, timeout and read errors);
  \<open>HTTPStatusError\<close> is what \<open>raise_for_status\<close> raises and is not a
  \<open>RequestError\<close>; \<open>JSONDecodeError\<close> is what \<open>json.loads\<close> raises on a
  malformed text.
\<close>

datatype exn =
    RequestError string
  | HTTPStatusError string
  | JSONDecodeError string
  | AttributeError string
  | TypeError string
  | ValueError string
  | OSError string
  | KeyError string

fun str_exn :: "exn \<Rightarrow> string" where
  "str_exn (RequestError m) = m"
| "str_exn (HTTPStatusError m) = m"
| "str_exn (JSONDecodeError m) = m"
| "str_exn (AttributeError m) = m"
| "str_exn (TypeError m) = m"
| "str_exn (ValueError m) = m"
| "str_exn (OSError m) = m"
| "str_exn (KeyError m) = m"

text \<open>
  What a function of the backend can end with besides its value: a FastAPI
  \<open>HTTPException(status_code, detail)\<close>, or any other exception left uncaught.
\<close>

datatype failure =
    HTTPException nat string
  | Uncaught exn

section \<open>Path sandbox: \<open>validate_safe_path\<close> (main.py)\<close>

text \<open>
  A resolved path (the value of \<open>Path(p).expanduser().resolve()\<close>) is absolute; it is
  modelled by its components below the root \<open>/\<close>. \<open>path_str\<close> is \<open>str(path)\<close>
  for a POSIX path.
\<close>

type_synonym path = "string list"

fun path_str :: "path \<Rightarrow> string" where
  "path_str [] = ''/''"
| "path_str [c] = CHR ''/'' # c"
| "path_str (c # cs) = CHR ''/'' # c @ path_str cs"

text \<open>
  \<open>resolved.relative_to(allowed)\<close>: the components of \<open>allowed\<close> must be the first
  components of \<open>resolved\<close>; the value is the rest, and \<open>None\<close> stands for the
  \<open>ValueError\<close> pathlib raises otherwise.
\<close>

fun relative_to :: "path \<Rightarrow> path \<Rightarrow> path option" where
  "relative_to cs [] = Some cs"
| "relative_to [] (a # as) = None"
| "relative_to (c # cs) (a # as) = (if c = a then relative_to cs as else None)"

text \<open>\<open>pattern in path_str\<close>: Python's substring test on strings.\<close>

fun startswith :: "string \<Rightarrow> string \<Rightarrow> bool" where
  "startswith s [] = True"
| "startswith [] (p # ps) = False"
| "startswith (c # cs) (p # ps) = (c = p \<and> startswith cs ps)"

fun str_in :: "string \<Rightarrow> string \<Rightarrow> bool" where
  "str_in pat [] = (pat = [])"
| "str_in pat (c # cs) = (startswith (c # cs) pat \<or> str_in pat cs)"

definition sensitive_patterns :: "string list" where
  "sensitive_patterns = [''/etc/'', ''/sys/'', ''/proc/'', ''/.ssh/'', ''/root/'']"

text \<open>
  \<open>validate_safe_path(requested_path, allowed_base)\<close>. The parameter \<open>resolve\<close> is
  \<open>Path(p).expanduser().resolve()\<close> on the current filesystem (symlinks, \<open>..\<close>,
  the home directory); it gives the resolved path or the exception it raised.
  \<open>WORKSPACE_ROOT\<close> is the module constant, resolved once at start-up. An
  \<open>allowed_base\<close> that is \<open>None\<close> or the empty string is falsy and selects
  \<open>WORKSPACE_ROOT\<close>.
\<close>

definition allowed_root :: "(string \<Rightarrow> exn + path) \<Rightarrow> path \<Rightarrow> string option \<Rightarrow> exn + path" where
  "allowed_root resolve WORKSPACE_ROOT allowed_base =
     (case allowed_base of
        None \<Rightarrow> Inr WORKSPACE_ROOT
      | Some b \<Rightarrow> if b = [] then Inr WORKSPACE_ROOT else resolve b)"

definition validate_safe_path ::
  "(string \<Rightarrow> exn + path) \<Rightarrow> path \<Rightarrow> string \<Rightarrow> string option \<Rightarrow> failure + path" where
  "validate_safe_path resolve WORKSPACE_ROOT requested_path allowed_base =
     (case resolve requested_path of
        Inl e \<Rightarrow> Inl (Uncaught e)
      | Inr resolved \<Rightarrow>
          (case allowed_root resolve WORKSPACE_ROOT allowed_base of
             Inl e \<Rightarrow> Inl (Uncaught e)
           | Inr allowed \<Rightarrow>
               (case relative_to resolved allowed of
                  None \<Rightarrow>
                    Inl (HTTPException 403
                          (''Path outside allowed workspace root: '' @ path_str allowed))
                | Some rest \<Rightarrow>
                    if list_ex (\<lambda>pattern. str_in pattern (path_str resolved)) sensitive_patterns
                    then Inl (HTTPException 403 ''Access to system directories denied'')
                    else Inr resolved)))"

text \<open>
  To instantiate \<open>resolve\<close>: path resolution on a filesystem given by its symbolic links
  (the absolute path of each link with the absolute path it points to) and the current
  directory. The components of the raw path are taken from left to right; an empty
  component and \<open>.\<close> change nothing, \<open>..\<close> drops the last component reached, and a
  component that completes the path of a link continues from the link's target. At most
  40 links are followed. A leading \<open>~\<close> is not expanded.
\<close>

fun split_slash :: "string \<Rightarrow> string list" where
  "split_slash [] = [[]]"
| "split_slash (c # cs) =
     (if c = CHR ''/'' then [] # split_slash cs
      else (case split_slash cs of [] \<Rightarrow> [[c]] | l # ls \<Rightarrow> (c # l) # ls))"

fun resolve_from :: "nat \<Rightarrow> (path \<Rightarrow> path option) \<Rightarrow> path \<Rightarrow> string list \<Rightarrow> exn + path" where
  "resolve_from fuel links cur [] = Inr cur"
| "resolve_from fuel links cur (c # cs) =
     (if c = [] \<or> c = ''.'' then resolve_from fuel links cur cs
      else if c = ''..'' then resolve_from fuel links (butlast cur) cs
      else
        (case links (cur @ [c]) of
           None \<Rightarrow> resolve_from fuel links (cur @ [c]) cs
         | Some target \<Rightarrow>
             (case fuel of
                0 \<Rightarrow> Inl (OSError ''Too many levels of symbolic links'')
              | Suc n \<Rightarrow> resolve_from n links [] (target @ cs))))"

definition posix_resolve :: "(path \<Rightarrow> path option) \<Rightarrow> path \<Rightarrow> string \<Rightarrow> exn + path" where
  "posix_resolve links cwd p =
     resolve_from 40 links (if startswith p ''/'' then [] else cwd) (split_slash p)"

text \<open>A sample filesystem: the current directory is the workspace \<open>/home/user\<close>, and
  \<open>/home/user/out\<close> is a symbolic link to \<open>/etc\<close>.\<close>

definition sample_links :: "path \<Rightarrow> path option" where
  "sample_links = map_of [([''home'', ''user'', ''out''], [''etc''])]"

definition sample_resolve :: "string \<Rightarrow> exn + path" where
  "sample_resolve = posix_resolve sample_links [''home'', ''user'']"

section \<open>JSON values as Python reads them\<close>

text \<open>
  The value \<open>json.loads\<close> returns: \<open>None\<close>, a bool, an int, a float, a str, a list or a
  dict. A dict is an association list read with \<open>map_of\<close>. Floats are reals here; NaN
  and the infinities are not represented.
\<close>

datatype json =
    JNull
  | JBool bool
  | JInt int
  | JFloat real
  | JStr string
  | JArr "json list"
  | JObj "(string \<times> json) list"

text \<open>Python's truth value of an object, as \<open>if content:\<close> tests it.\<close>

fun truthy :: "json \<Rightarrow> bool" where
  "truthy JNull = False"
| "truthy (JBool b) = b"
| "truthy (JInt i) = (i \<noteq> 0)"
| "truthy (JFloat x) = (x \<noteq> 0)"
| "truthy (JStr s) = (s \<noteq> [])"
| "truthy (JArr xs) = (xs \<noteq> [])"
| "truthy (JObj kvs) = (kvs \<noteq> [])"

fun type_name :: "json \<Rightarrow> string" where
  "type_name JNull = ''NoneType''"
| "type_name (JBool b) = ''bool''"
| "type_name (JInt i) = ''int''"
| "type_name (JFloat x) = ''float''"
| "type_name (JStr s) = ''str''"
| "type_name (JArr xs) = ''list''"
| "type_name (JObj kvs) = ''dict''"

definition quoted :: "string \<Rightarrow> string" where
  "quoted s = CHR 0x27 # s @ [CHR 0x27]"

definition no_attribute :: "json \<Rightarrow> string \<Rightarrow> exn" where
  "no_attribute v a =
     AttributeError (quoted (type_name v) @ '' object has no attribute '' @ quoted a)"

text \<open>\<open>v.get(k, d)\<close>: only a dict has the method.\<close>

fun py_get :: "json \<Rightarrow> string \<Rightarrow> json \<Rightarrow> exn + json" where
  "py_get (JObj kvs) k d = Inr (case map_of kvs k of None \<Rightarrow> d | Some v \<Rightarrow> v)"
| "py_get v k d = Inl (no_attribute v ''get'')"

text \<open>\<open>k in v\<close> for a string \<open>k\<close>: a key of a dict, an element of a list, a substring of a
  str; any other value is not a container.\<close>

fun py_contains :: "string \<Rightarrow> json \<Rightarrow> exn + bool" where
  "py_contains k (JObj kvs) = Inr (map_of kvs k \<noteq> None)"
| "py_contains k (JArr xs) = Inr (JStr k \<in> set xs)"
| "py_contains k (JStr s) = Inr (str_in k s)"
| "py_contains k v =
     Inl (TypeError (''argument of type '' @ quoted (type_name v) @ '' is not iterable''))"

text \<open>\<open>v[k]\<close> for a string \<open>k\<close>.\<close>

fun py_item :: "json \<Rightarrow> string \<Rightarrow> exn + json" where
  "py_item (JObj kvs) k =
     (case map_of kvs k of None \<Rightarrow> Inl (KeyError (quoted k)) | Some v \<Rightarrow> Inr v)"
| "py_item (JStr s) k = Inl (TypeError ''string indices must be integers'')"
| "py_item (JArr xs) k = Inl (TypeError ''list indices must be integers or slices, not str'')"
| "py_item v k = Inl (TypeError (quoted (type_name v) @ '' object is not subscriptable''))"

section \<open>Stream translator: \<open>chat_stream\<close> (main.py)\<close>

text \<open>
  The events the generator yields. Each is sent as one server-sent event
  \<open>data: <json>\<close>, the JSON being \<open>{"content": c}\<close>, \<open>{"done": true}\<close> or
  \<open>{"error": message}\<close>.
\<close>

datatype event = Content json | Done | Error string

text \<open>
  What the backend connection delivers next: a line of \<open>response.aiter_lines()\<close>, or an
  exception raised by the transport. A \<open>Raises\<close> in first position also stands for
  \<open>client.stream\<close> failing to connect and for \<open>raise_for_status\<close> on a bad status;
  nothing after a \<open>Raises\<close> is ever read.
\<close>

datatype stream_item = Line string | Raises exn

text \<open>\<open>line.strip()\<close> is falsy when the line holds white space only. White space is
  the ASCII white space of \<open>str.isspace\<close>; the other Unicode spaces Python also strips
  (U+0085, U+00A0 and beyond) are not represented.\<close>

definition is_space :: "char \<Rightarrow> bool" where
  "is_space c \<longleftrightarrow>
     c \<in> {CHR 0x09, CHR 0x0A, CHR 0x0B, CHR 0x0C, CHR 0x0D,
          CHR 0x1C, CHR 0x1D, CHR 0x1E, CHR 0x1F, CHR 0x20}"

definition blank :: "string \<Rightarrow> bool" where
  "blank line = list_all is_space line"

text \<open>The block \<open>if "message" in chunk: ...\<close>.\<close>

definition content_events :: "json \<Rightarrow> exn + event list" where
  "content_events chunk =
     (case py_contains ''message'' chunk of
        Inl e \<Rightarrow> Inl e
      | Inr False \<Rightarrow> Inr []
      | Inr True \<Rightarrow>
          (case py_item chunk ''message'' of
             Inl e \<Rightarrow> Inl e
           | Inr message \<Rightarrow>
               (case py_get message ''content'' (JStr []) of
                  Inl e \<Rightarrow> Inl e
                | Inr content \<Rightarrow> Inr (if truthy content then [Content content] else []))))"

text \<open>The block \<open>if chunk.get("done", False): ...\<close>.\<close>

definition done_events :: "json \<Rightarrow> exn + event list" where
  "done_events chunk =
     (case py_get chunk ''done'' (JBool False) of
        Inl e \<Rightarrow> Inl e
      | Inr d \<Rightarrow> Inr (if truthy d then [Done] else []))"

text \<open>The body of the inner \<open>try\<close> after \<open>json.loads\<close>: the events yielded for one chunk,
  and the exception that leaves the loop, if one is raised.\<close>

definition process_chunk :: "json \<Rightarrow> event list \<times> exn option" where
  "process_chunk chunk =
     (case content_events chunk of
        Inl e \<Rightarrow> ([], Some e)
      | Inr cs \<Rightarrow>
          (case done_events chunk of
             Inl e \<Rightarrow> (cs, Some e)
           | Inr ds \<Rightarrow> (cs @ ds, None)))"

text \<open>The two outer handlers: \<open>except httpx.RequestError\<close>, then \<open>except Exception\<close>.\<close>

fun on_exception :: "exn \<Rightarrow> event" where
  "on_exception (RequestError m) = Error (''Cannot connect to Ollama: '' @ m)"
| "on_exception e = Error (''Error: '' @ str_exn e)"

text \<open>
  The generator \<open>generate()\<close> of \<open>chat_stream\<close>, as the list of events it yields. The
  parameter \<open>loads\<close> is \<open>json.loads\<close>. A \<open>JSONDecodeError\<close> is caught inside the loop
  (\<open>continue\<close>); every other exception ends the generator with one error event.
\<close>

fun generate :: "(string \<Rightarrow> exn + json) \<Rightarrow> stream_item list \<Rightarrow> event list" where
  "generate loads [] = []"
| "generate loads (Raises e # rest) = [on_exception e]"
| "generate loads (Line line # rest) =
     (if blank line then generate loads rest
      else (case loads line of
              Inl (JSONDecodeError m) \<Rightarrow> generate loads rest
            | Inl e \<Rightarrow> [on_exception e]
            | Inr chunk \<Rightarrow>
                (case process_chunk chunk of
                   (evs, Some e) \<Rightarrow> evs @ [on_exception e]
                 | (evs, None) \<Rightarrow> evs @ generate loads rest)))"


fun is_error :: "event \<Rightarrow> bool" where
  "is_error (Error m) = True"
| "is_error e = False"



text \<open>A \<open>json.loads\<close> that knows the three lines of the sample stream and rejects every
  other text.\<close>

definition sample_loads :: "string \<Rightarrow> exn + json" where
  \<open>sample_loads line =
     (if line = ''{"message":{"content":"a"}}''
        then Inr (JObj [(''message'', JObj [(''content'', JStr ''a'')])])
      else if line = ''{"message":{"content":"b"},"done":true}''
        then Inr (JObj [(''message'', JObj [(''content'', JStr ''b'')]), (''done'', JBool True)])
      else if line = ''{"done":true}''
        then Inr (JObj [(''done'', JBool True)])
      else Inl (JSONDecodeError ''Expecting value: line 1 column 1 (char 0)''))\<close>

section \<open>Filesystem trees\<close>

text \<open>\<open>str(n)\<close> for a natural number.\<close>

fun string_of_nat :: "nat \<Rightarrow> string" where
  "string_of_nat n =
     (if n < 10 then [''0123456789'' ! n]
      else string_of_nat (n div 10) @ [''0123456789'' ! (n mod 10)])"

declare string_of_nat.simps [simp del]

text \<open>
  What \<open>os.walk\<close> sees. A directory entry that is not a directory has a name and the
  text read from it (\<open>None\<close> when opening or reading it raises). A directory has its
  name, whether the entry is a symbolic link, the inode \<open>os.stat\<close> reports (\<open>None\<close> when
  \<open>os.stat\<close> raises \<open>OSError\<close>), whether \<open>scandir\<close> can list it, and its entries in
  the order \<open>scandir\<close> returns them: the directories (symbolic links to directories
  included) and the rest. The same inode may label several directories of a tree: hard
  links and bind mounts show one physical directory in several places, and inode numbers
  repeat across devices.
\<close>

datatype file_entry = File (fname: string) (fcontent: "string option")

datatype dir =
  Dir (dname: string) (islink: bool) (st_ino: "nat option") (readable: bool)
      (subdirs: "dir list") (nondirs: "file_entry list")

text \<open>What a path names on the filesystem: nothing, something \<open>stat\<close> fails on with an
  error \<open>Path.exists\<close> lets through, a file, or a directory.\<close>

datatype fs_entry = Absent | StatFails exn | IsFile file_entry | IsDir dir

text \<open>The number of files a tree holds, wherever they are.\<close>

fun tree_files :: "dir \<Rightarrow> nat" where
  "tree_files (Dir name link ino ok dirs fs) = length fs + sum_list (map tree_files dirs)"

text \<open>\<open>n\<close> empty files with the distinct names \<open>f0\<close>, \<open>f1\<close>, ...\<close>

definition numbered_files :: "nat \<Rightarrow> file_entry list" where
  "numbered_files n = map (\<lambda>i. File (''f'' @ string_of_nat i) (Some [])) [0..<n]"

section \<open>Workspace scanner: \<open>scan_workspace_structure\<close> (tools_router.py)\<close>

record "structure" =
  directories :: "string list"
  files :: "string list"
  total_files :: nat
  total_dirs :: nat
  truncated :: bool

text \<open>
  The state of the loop over \<open>os.walk\<close>: the dictionary \<open>structure\<close>, the set
  \<open>seen_inodes\<close>, and whether \<open>break\<close> has left the loop. \<open>walked\<close> is not a variable
  of the source: it lists, in order, the directories \<open>os.walk\<close> has yielded (by their
  path relative to the workspace), that is the directories the walk has entered.
\<close>

record scan_state =
  struct :: "structure"
  seen_inodes :: "nat set"
  stopped :: bool
  walked :: "string list"

definition MAX_FILES :: nat where "MAX_FILES = 10000"
definition MAX_DIRS :: nat where "MAX_DIRS = 1000"

definition ignore_dirs :: "string set" where
  "ignore_dirs = {''.git'', ''node_modules'', ''__pycache__'', ''venv'', ''.venv'', ''dist'',
                  ''build'', ''.next''}"

text \<open>\<open>str(Path(root).relative_to(workspace))\<close>, from the components of the relative
  path; the workspace itself gives \<open>.\<close>.\<close>

fun join_parts :: "string list \<Rightarrow> string" where
  "join_parts [] = ''.''"
| "join_parts [c] = c"
| "join_parts (c # cs) = c @ ''/'' @ join_parts cs"

text \<open>\<open>os.path.join(a, b)\<close> of posixpath.\<close>

definition os_path_join :: "string \<Rightarrow> string \<Rightarrow> string" where
  "os_path_join a b =
     (if startswith b ''/'' then b
      else if a = [] \<or> last a = CHR ''/'' then a @ b
      else a @ ''/'' @ b)"

text \<open>Lines 97--100: the directory is recorded unless it is the workspace itself.\<close>

definition record_dir :: "string \<Rightarrow> structure \<Rightarrow> structure" where
  "record_dir rel_root s =
     (if rel_root \<noteq> ''.'' \<and> total_dirs s < MAX_DIRS
      then s\<lparr>directories := directories s @ [rel_root], total_dirs := total_dirs s + 1\<rparr>
      else s)"

text \<open>Lines 102--106: the loop \<open>for file in files\<close>.\<close>

fun record_files :: "string \<Rightarrow> string list \<Rightarrow> structure \<Rightarrow> structure" where
  "record_files rel_root [] s = s"
| "record_files rel_root (file # rest) s =
     record_files rel_root rest
       (if total_files s < MAX_FILES
        then s\<lparr>files := files s @ [if rel_root \<noteq> ''.'' then os_path_join rel_root file else file],
               total_files := total_files s + 1\<rparr>
        else s)"

lemma size_list_filter_le: "size_list f (filter P xs) \<le> size_list f xs"
  by (induction xs) auto

text \<open>
  The loop \<open>for root, dirs, files in os.walk(workspace, followlinks=False)\<close> with its
  body. \<open>walk\<close> is \<open>os.walk\<close> arriving at one directory whose path relative to the
  workspace has the components \<open>rel\<close>: a directory \<open>scandir\<close> cannot list is passed over
  in silence; otherwise the directory is yielded and the loop body runs. After the body
  \<open>os.walk\<close> descends into the names left in \<open>dirs\<close>, which the body has filtered
  (line 88), emptied (line 93) or, where it left with \<open>continue\<close> at lines 82 and 85,
  not touched. \<open>walk_subdirs\<close> is that descent: a symbolic link is not followed. Once
  \<open>break\<close> has run, nothing more happens.
\<close>

function walk :: "int \<Rightarrow> string list \<Rightarrow> dir \<Rightarrow> scan_state \<Rightarrow> scan_state"
  and walk_subdirs :: "int \<Rightarrow> string list \<Rightarrow> dir list \<Rightarrow> scan_state \<Rightarrow> scan_state" where
  "walk max_depth rel (Dir name link ino ok dirs fs) st =
     (if stopped st \<or> \<not> ok then st
      else
        let st = st\<lparr>walked := walked st @ [join_parts rel]\<rparr> in
        if total_files (struct st) \<ge> MAX_FILES \<or> total_dirs (struct st) \<ge> MAX_DIRS
        then st\<lparr>struct := (struct st)\<lparr>truncated := True\<rparr>, stopped := True\<rparr>
        else
          (case ino of
             None \<Rightarrow> walk_subdirs max_depth rel dirs st
           | Some inode \<Rightarrow>
               if inode \<in> seen_inodes st then walk_subdirs max_depth rel dirs st
               else
                 let st = st\<lparr>seen_inodes := insert inode (seen_inodes st)\<rparr>;
                     dirs = filter (\<lambda>d. dname d \<notin> ignore_dirs) dirs
                 in
                 if int (length rel) \<ge> max_depth then st
                 else
                   walk_subdirs max_depth rel dirs
                     (st\<lparr>struct :=
                          record_files (join_parts rel) (map fname fs)
                            (record_dir (join_parts rel) (struct st))\<rparr>)))"
| "walk_subdirs max_depth rel [] st = st"
| "walk_subdirs max_depth rel (d # ds) st =
     walk_subdirs max_depth rel ds
       (if islink d then st else walk max_depth (rel @ [dname d]) d st)"
  by pat_completeness auto
termination
  apply (relation "measure (\<lambda>x. case x of Inl (m, r, d, s) \<Rightarrow> size d
                                        | Inr (m, r, ds, s) \<Rightarrow> size_list size ds)")
      apply (auto simp: size_list_filter_le le_imp_less_Suc trans_le_add1)
  done

definition empty_structure :: "structure" where
  "empty_structure =
     \<lparr>directories = [], files = [], total_files = 0, total_dirs = 0, truncated = False\<rparr>"

definition scan_start :: scan_state where
  "scan_start = \<lparr>struct = empty_structure, seen_inodes = {}, stopped = False, walked = []\<rparr>"

text \<open>
  The run of \<open>scan_workspace_structure(workspace_path, max_depth)\<close> on the filesystem
  \<open>fs\<close>. Where \<open>workspace.exists()\<close> is false the function returns at line 67; where it
  raises, the handler at line 109 returns the structure, still empty; on a file
  \<open>os.walk\<close> yields nothing.
\<close>

definition scan_run :: "(string \<Rightarrow> fs_entry) \<Rightarrow> string \<Rightarrow> int \<Rightarrow> scan_state" where
  "scan_run fs workspace_path max_depth =
     (case fs workspace_path of
        IsDir d \<Rightarrow> walk max_depth [] d scan_start
      | _ \<Rightarrow> scan_start)"

definition scan_workspace_structure :: "(string \<Rightarrow> fs_entry) \<Rightarrow> string \<Rightarrow> int \<Rightarrow> structure" where
  "scan_workspace_structure fs workspace_path max_depth =
     struct (scan_run fs workspace_path max_depth)"

text \<open>The limits a returned structure keeps.\<close>

definition within_limits :: "structure \<Rightarrow> bool" where
  "within_limits s \<longleftrightarrow>
     length (files s) = total_files s \<and> total_files s \<le> MAX_FILES
     \<and> length (directories s) = total_dirs s \<and> total_dirs s \<le> MAX_DIRS
     \<and> (truncated s \<longrightarrow> total_files s = MAX_FILES \<or> total_dirs s = MAX_DIRS)"

section \<open>Strings and path names as Python has them\<close>

text \<open>\<open>str.lower\<close> on ASCII letters.\<close>

definition lower_char :: "char \<Rightarrow> char" where
  "lower_char c =
     (case map_of (zip ''ABCDEFGHIJKLMNOPQRSTUVWXYZ'' ''abcdefghijklmnopqrstuvwxyz'') c of
        None \<Rightarrow> c
      | Some l \<Rightarrow> l)"

definition lower :: "string \<Rightarrow> string" where
  "lower s = map lower_char s"

text \<open>\<open>str.strip()\<close>: white space removed at both ends.\<close>

definition strip :: "string \<Rightarrow> string" where
  "strip s = rev (dropWhile is_space (rev (dropWhile is_space s)))"

text \<open>\<open>f.readlines()\<close>: the lines of a text, each with its line feed (text mode has
  already translated the line endings).\<close>

fun readlines :: "string \<Rightarrow> string list" where
  "readlines [] = []"
| "readlines (c # cs) =
     (if c = CHR 0x0A then [c] # readlines cs
      else (case readlines cs of [] \<Rightarrow> [[c]] | l # ls \<Rightarrow> (c # l) # ls))"

text \<open>\<open>content.split('\n')\<close> and \<open>'\n'.join(lines)\<close>.\<close>

fun split_lines :: "string \<Rightarrow> string list" where
  "split_lines [] = [[]]"
| "split_lines (c # cs) =
     (if c = CHR 0x0A then [] # split_lines cs
      else (case split_lines cs of [] \<Rightarrow> [[c]] | l # ls \<Rightarrow> (c # l) # ls))"

fun join_lines :: "string list \<Rightarrow> string" where
  "join_lines [] = []"
| "join_lines [l] = l"
| "join_lines (l # ls) = l @ CHR 0x0A # join_lines ls"

text \<open>\<open>Path(p).name\<close> for a relative path written with \<open>/\<close>, and \<open>Path(p).suffix\<close>
  (pathlib up to Python 3.12): the text from the last dot of the name on, unless the name
  has no dot, starts with its only dot or ends with a dot.\<close>

definition path_name :: "string \<Rightarrow> string" where
  "path_name p = rev (takeWhile (\<lambda>c. c \<noteq> CHR ''/'') (rev p))"

definition suffix :: "string \<Rightarrow> string" where
  "suffix p =
     (let name = path_name p;
          after = length (takeWhile (\<lambda>c. c \<noteq> CHR ''.'') (rev name));
          i = length name - 1 - after
      in if CHR ''.'' \<in> set name \<and> 0 < i \<and> i < length name - 1 then drop i name else [])"


section \<open>Tool handlers and dispatcher (tools_router.py)\<close>

text \<open>
  \<open>os.walk(workspace)\<close> as the two content-reading handlers use it: every yielded
  directory gets \<open>dirs[:] = [d for d in dirs if d not in ignore_dirs]\<close>, so the walk is
  the list of the yielded directories (components relative to the workspace) with their
  non-directory entries, ignored names pruned, symbolic links not followed, unlistable
  directories passed over.
\<close>

function walk_pruned :: "string list \<Rightarrow> dir \<Rightarrow> (string list \<times> file_entry list) list"
  and walk_pruned_subdirs :: "string list \<Rightarrow> dir list \<Rightarrow> (string list \<times> file_entry list) list" where
  "walk_pruned rel (Dir name link ino ok dirs fs) =
     (if \<not> ok then []
      else (rel, fs) # walk_pruned_subdirs rel (filter (\<lambda>d. dname d \<notin> ignore_dirs) dirs))"
| "walk_pruned_subdirs rel [] = []"
| "walk_pruned_subdirs rel (d # ds) =
     (if islink d then [] else walk_pruned (rel @ [dname d]) d) @ walk_pruned_subdirs rel ds"
  by pat_completeness auto
termination
  apply (relation "measure (\<lambda>x. case x of Inl (r, d) \<Rightarrow> size d
                                        | Inr (r, ds) \<Rightarrow> size_list size ds)")
      apply (auto simp: size_list_filter_le le_imp_less_Suc trans_le_add1)
  done

definition os_walk_pruned :: "(string \<Rightarrow> fs_entry) \<Rightarrow> string \<Rightarrow> (string list \<times> file_entry list) list" where
  "os_walk_pruned fs workspace_path =
     (case fs workspace_path of IsDir d \<Rightarrow> walk_pruned [] d | _ \<Rightarrow> [])"

text \<open>An entry of the list \<open>todos\<close>.\<close>

record todo =
  todo_file :: string
  todo_line :: nat
  todo_text :: string

text \<open>The payload \<open>activeSheetData\<close>, taken well-shaped: a dictionary with at most
  the keys \<open>columns\<close> (a list of strings), \<open>rows\<close> (a list of rows) and \<open>name\<close> (a
  string). \<open>None\<close> in a field says that the key is missing.\<close>

record sheet =
  sheet_columns :: "string list option"
  sheet_rows :: "json list list option"
  sheet_name :: "string option"

text \<open>
  A prompt is a fixed instruction text with values put into it. The text is not
  reproduced; a prompt is the handler it comes from and the values it holds, in the order
  they appear in the text.
\<close>

datatype prompt =
    SummarizeWorkspacePrompt nat "string list" nat "string list"
  | ListFilesPrompt nat nat "(string \<times> nat \<times> string list) list"
  | ScanTodosPrompt nat "todo list"
  | AnalyzeCodebasePrompt nat "(string \<times> string) list"
  | GenerateReadmePrompt nat nat "string list" string
  | SummarizeCsvPrompt string nat nat "string list" "json list list"

text \<open>
  What a handler does besides returning: a scan of a workspace path (with the
  directories the walk entered), a walk of a workspace path by a content-reading handler,
  a file read (path relative to the workspace, number of characters read), an open or
  read that raised, and a call of the model backend.
\<close>

datatype effect =
    Scanned string "string list"
  | Walked string
  | FileRead string nat
  | OpenFailed string
  | ModelCalled string prompt

text \<open>The answer of the model backend to \<open>POST /api/generate\<close>: the request raises, or a
  response arrives with a status code and a body that \<open>response.json()\<close> parses or
  rejects.\<close>

datatype reply = Unreachable exn | Reply nat "exn + json"

text \<open>\<open>run_ollama_model(model, prompt)\<close>: every exception and every status other than
  200 becomes the returned text.\<close>

definition run_ollama_model :: "(string \<Rightarrow> prompt \<Rightarrow> reply) \<Rightarrow> string \<Rightarrow> prompt \<Rightarrow> json" where
  "run_ollama_model ollama model_name p =
     (case ollama model_name p of
        Unreachable e \<Rightarrow> JStr (''Error calling model: '' @ str_exn e)
      | Reply status_code body \<Rightarrow>
          if status_code = 200 then
            (case body of
               Inl e \<Rightarrow> JStr (''Error calling model: '' @ str_exn e)
             | Inr data \<Rightarrow>
                 (case py_get data ''response'' (JStr []) of
                    Inl e \<Rightarrow> JStr (''Error calling model: '' @ str_exn e)
                  | Inr v \<Rightarrow> v))
          else JStr (''Error: Model returned status '' @ string_of_nat status_code))"

text \<open>\<open>tool_summarize_workspace\<close>.\<close>

definition tool_summarize_workspace ::
  "(string \<Rightarrow> fs_entry) \<Rightarrow> (string \<Rightarrow> prompt \<Rightarrow> reply) \<Rightarrow> string \<Rightarrow> string \<Rightarrow> json \<times> effect list" where
  "tool_summarize_workspace fs ollama workspace_path model_name =
     (let run = scan_run fs workspace_path 4;
          s = struct run;
          p = SummarizeWorkspacePrompt (total_dirs s) (sort (take 50 (directories s)))
                (total_files s) (sort (take 100 (files s)))
      in (run_ollama_model ollama model_name p,
          [Scanned workspace_path (walked run), ModelCalled model_name p]))"

text \<open>\<open>tool_list_files\<close>: the files grouped by \<open>Path(file_path).suffix or
  'no-extension'\<close>, the groups in the order of the sorted extensions, each with its size
  and its first 50 sorted members.\<close>

definition extension :: "string \<Rightarrow> string" where
  "extension file_path = (if suffix file_path = [] then ''no-extension'' else suffix file_path)"

definition by_extension :: "string list \<Rightarrow> (string \<times> nat \<times> string list) list" where
  "by_extension fps =
     map (\<lambda>ext. let members = filter (\<lambda>fp. extension fp = ext) fps
                in (ext, length members, take 50 (sort members)))
         (sort (remdups (map extension fps)))"

definition tool_list_files ::
  "(string \<Rightarrow> fs_entry) \<Rightarrow> (string \<Rightarrow> prompt \<Rightarrow> reply) \<Rightarrow> string \<Rightarrow> string \<Rightarrow> json \<times> effect list" where
  "tool_list_files fs ollama workspace_path model_name =
     (let run = scan_run fs workspace_path 6;
          s = struct run;
          p = ListFilesPrompt (total_files s) (total_dirs s) (by_extension (files s))
      in (run_ollama_model ollama model_name p,
          [Scanned workspace_path (walked run), ModelCalled model_name p]))"

text \<open>\<open>tool_scan_todos\<close>. \<open>todos_of_lines\<close> is the loop over \<open>enumerate(lines, 1)\<close>,
  \<open>scan_todos_files\<close> the loop over the files of one yielded directory, and
  \<open>scan_todos_dirs\<close> the loop over \<open>os.walk\<close>. Every file with a listed suffix is opened
  and read whole with \<open>readlines\<close>. The outer handler, which returns
  \<open>Error scanning for TODOs: ...\<close>, runs only when \<open>os.walk\<close> itself raises (a workspace
  path with a NUL character); no file is read and no model is called then, and such paths
  are not among the filesystems modelled here.\<close>

definition todo_extensions :: "string set" where
  "todo_extensions = {''.ts'', ''.tsx'', ''.js'', ''.jsx'', ''.py'', ''.md'', ''.txt''}"

fun todos_of_lines :: "string \<Rightarrow> nat \<Rightarrow> string list \<Rightarrow> todo list" where
  "todos_of_lines rel_path i [] = []"
| "todos_of_lines rel_path i (l # ls) =
     (if str_in ''todo'' (lower l) \<or> str_in ''fixme'' (lower l)
      then [\<lparr>todo_file = rel_path, todo_line = i, todo_text = strip l\<rparr>]
      else [])
     @ todos_of_lines rel_path (i + 1) ls"

fun scan_todos_files ::
  "string list \<Rightarrow> file_entry list \<Rightarrow> todo list \<times> effect list \<Rightarrow> todo list \<times> effect list" where
  "scan_todos_files rel [] acc = acc"
| "scan_todos_files rel (f # fs) (todos, effects) =
     scan_todos_files rel fs
       (if suffix (fname f) \<notin> todo_extensions then (todos, effects)
        else
          (case fcontent f of
             None \<Rightarrow> (todos, effects @ [OpenFailed (join_parts (rel @ [fname f]))])
           | Some content \<Rightarrow>
               (todos @ todos_of_lines (join_parts (rel @ [fname f])) 1 (readlines content),
                effects @ [FileRead (join_parts (rel @ [fname f])) (length content)])))"

fun scan_todos_dirs ::
  "(string list \<times> file_entry list) list \<Rightarrow> todo list \<times> effect list \<Rightarrow> todo list \<times> effect list" where
  "scan_todos_dirs [] acc = acc"
| "scan_todos_dirs ((rel, fs) # rest) acc = scan_todos_dirs rest (scan_todos_files rel fs acc)"

definition tool_scan_todos ::
  "(string \<Rightarrow> fs_entry) \<Rightarrow> (string \<Rightarrow> prompt \<Rightarrow> reply) \<Rightarrow> string \<Rightarrow> string \<Rightarrow> json \<times> effect list" where
  "tool_scan_todos fs ollama workspace_path model_name =
     (case scan_todos_dirs (os_walk_pruned fs workspace_path) ([], [Walked workspace_path]) of
        (todos, effects) \<Rightarrow>
          if todos = [] then (JStr ''No TODO or FIXME comments found in the workspace.'', effects)
          else
            let p = ScanTodosPrompt (length todos) (take 50 todos)
            in (run_ollama_model ollama model_name p, effects @ [ModelCalled model_name p]))"

text \<open>\<open>tool_analyze_codebase\<close>. Every file with a listed suffix is opened and read whole
  with \<open>f.read()\<close>; the preview kept is the first 50 lines cut at 2000 characters. The
  inner loop breaks when 20 files have been kept, and the loop over \<open>os.walk\<close> after it.
  The outer handler, which returns \<open>Error analyzing codebase: ...\<close>, is left out as in
  \<open>tool_scan_todos\<close>.\<close>

definition code_extensions :: "string set" where
  "code_extensions = {''.ts'', ''.tsx'', ''.js'', ''.jsx'', ''.py''}"

definition preview_of :: "string \<Rightarrow> string" where
  "preview_of content = take 2000 (join_lines (take 50 (split_lines content)))"

fun analyze_files ::
  "string list \<Rightarrow> file_entry list \<Rightarrow> (string \<times> string) list \<times> effect list
     \<Rightarrow> (string \<times> string) list \<times> effect list" where
  "analyze_files rel [] acc = acc"
| "analyze_files rel (f # fs) (files_analyzed, effects) =
     (if suffix (fname f) \<notin> code_extensions then analyze_files rel fs (files_analyzed, effects)
      else
        (case fcontent f of
           None \<Rightarrow>
             analyze_files rel fs
               (files_analyzed, effects @ [OpenFailed (join_parts (rel @ [fname f]))])
         | Some content \<Rightarrow>
             let files_analyzed = files_analyzed @ [(join_parts (rel @ [fname f]), preview_of content)];
                 effects = effects @ [FileRead (join_parts (rel @ [fname f])) (length content)]
             in if length files_analyzed \<ge> 20 then (files_analyzed, effects)
                else analyze_files rel fs (files_analyzed, effects)))"

fun analyze_dirs ::
  "(string list \<times> file_entry list) list \<Rightarrow> (string \<times> string) list \<times> effect list
     \<Rightarrow> (string \<times> string) list \<times> effect list" where
  "analyze_dirs [] acc = acc"
| "analyze_dirs ((rel, fs) # rest) acc =
     (case analyze_files rel fs acc of
        (files_analyzed, effects) \<Rightarrow>
          if length files_analyzed \<ge> 20 then (files_analyzed, effects)
          else analyze_dirs rest (files_analyzed, effects))"

definition tool_analyze_codebase ::
  "(string \<Rightarrow> fs_entry) \<Rightarrow> (string \<Rightarrow> prompt \<Rightarrow> reply) \<Rightarrow> string \<Rightarrow> string \<Rightarrow> json \<times> effect list" where
  "tool_analyze_codebase fs ollama workspace_path model_name =
     (case analyze_dirs (os_walk_pruned fs workspace_path) ([], [Walked workspace_path]) of
        (files_analyzed, effects) \<Rightarrow>
          if files_analyzed = [] then (JStr ''No code files found to analyze.'', effects)
          else
            let p = AnalyzeCodebasePrompt (length files_analyzed) files_analyzed
            in (run_ollama_model ollama model_name p, effects @ [ModelCalled model_name p]))"

text \<open>\<open>tool_generate_readme\<close>: the scan, then \<open>package.json\<close> and \<open>requirements.txt\<close>
  of the workspace directory, each read whole if it exists; a failing open or read is
  passed over (bare \<open>except\<close>).\<close>

definition read_if_exists ::
  "(string \<Rightarrow> fs_entry) \<Rightarrow> string \<Rightarrow> string \<Rightarrow> string \<times> effect list" where
  "read_if_exists fs workspace_path file_name =
     (case fs workspace_path of
        IsDir d \<Rightarrow>
          (case find (\<lambda>f. fname f = file_name) (nondirs d) of
             Some f \<Rightarrow>
               (case fcontent f of
                  Some content \<Rightarrow>
                    (CHR 0x0A # file_name @ '' found'' @ CHR 0x0A # content @ [CHR 0x0A],
                     [FileRead file_name (length content)])
                | None \<Rightarrow> ([], [OpenFailed file_name]))
           | None \<Rightarrow>
               if list_ex (\<lambda>sub. dname sub = file_name) (subdirs d)
               then ([], [OpenFailed file_name]) else ([], []))
      | _ \<Rightarrow> ([], []))"

definition tool_generate_readme ::
  "(string \<Rightarrow> fs_entry) \<Rightarrow> (string \<Rightarrow> prompt \<Rightarrow> reply) \<Rightarrow> string \<Rightarrow> string \<Rightarrow> json \<times> effect list" where
  "tool_generate_readme fs ollama workspace_path model_name =
     (let run = scan_run fs workspace_path 4;
          s = struct run;
          pkg = read_if_exists fs workspace_path ''package.json'';
          req = read_if_exists fs workspace_path ''requirements.txt'';
          p = GenerateReadmePrompt (total_dirs s) (total_files s)
                (sort (take 30 (directories s))) (fst pkg @ fst req)
      in (run_ollama_model ollama model_name p,
          [Scanned workspace_path (walked run)] @ snd pkg @ snd req @ [ModelCalled model_name p]))"

text \<open>\<open>tool_summarize_csv\<close>. An absent payload reaches the handler as the empty
  dictionary.\<close>

definition tool_summarize_csv ::
  "(string \<Rightarrow> prompt \<Rightarrow> reply) \<Rightarrow> sheet option \<Rightarrow> string \<Rightarrow> json \<times> effect list" where
  "tool_summarize_csv ollama active_sheet_data model_name =
     (case active_sheet_data of
        None \<Rightarrow> (JStr ''No active sheet data provided.'', [])
      | Some data \<Rightarrow>
          if sheet_columns data = None \<and> sheet_rows data = None \<and> sheet_name data = None
          then (JStr ''No active sheet data provided.'', [])
          else
            let cols = (case sheet_columns data of None \<Rightarrow> [] | Some c \<Rightarrow> c);
                rws = (case sheet_rows data of None \<Rightarrow> [] | Some r \<Rightarrow> r);
                nm = (case sheet_name data of None \<Rightarrow> ''Unknown'' | Some n \<Rightarrow> n)
            in if cols = [] \<or> rws = [] then (JStr ''Sheet data is empty or invalid.'', [])
               else
                 let p = SummarizeCsvPrompt nm (length cols) (length rws) cols (take 10 rws)
                 in (run_ollama_model ollama model_name p, [ModelCalled model_name p]))"

text \<open>
  The endpoint \<open>run_tool\<close>: the HTTP error raised or the response returned, with the
  effects of the run. The request is passed to the handlers as it arrives; on the inputs
  of this model no handler raises, so the clause \<open>except Exception\<close> has no branch here.
\<close>

record tool_run_request =
  toolName :: string
  workspacePath :: string
  activeSheetData :: "sheet option"
  model :: string

record tool_response =
  success :: bool
  tool :: string
  result :: json

definition run_tool ::
  "(string \<Rightarrow> fs_entry) \<Rightarrow> (string \<Rightarrow> prompt \<Rightarrow> reply) \<Rightarrow> tool_run_request
     \<Rightarrow> (failure + tool_response) \<times> effect list" where
  "run_tool fs ollama request =
     (let tool_name = toolName request;
          workspace_path = workspacePath request;
          model_name = model request;
          respond = (\<lambda>(r, effects). (Inr \<lparr>success = True, tool = tool_name, result = r\<rparr>, effects))
      in
      if model_name = [] then (Inl (HTTPException 400 ''Model is required''), [])
      else if tool_name = ''summarize_workspace''
        then respond (tool_summarize_workspace fs ollama workspace_path model_name)
      else if tool_name = ''list_files''
        then respond (tool_list_files fs ollama workspace_path model_name)
      else if tool_name = ''scan_todos''
        then respond (tool_scan_todos fs ollama workspace_path model_name)
      else if tool_name = ''analyze_codebase''
        then respond (tool_analyze_codebase fs ollama workspace_path model_name)
      else if tool_name = ''generate_readme''
        then respond (tool_generate_readme fs ollama workspace_path model_name)
      else if tool_name = ''summarize_csv''
        then respond (tool_summarize_csv ollama (activeSheetData request) model_name)
      else (Inl (HTTPException 400 (''Unknown tool: '' @ tool_name)), []))"

text \<open>The files an effect list reports as read, each with the number of characters
  read.\<close>

fun files_read :: "effect list \<Rightarrow> (string \<times> nat) list" where
  "files_read [] = []"
| "files_read (FileRead p n # es) = (p, n) # files_read es"
| "files_read (e # es) = files_read es"

text \<open>
  For comparison with the handlers: the files of a pruned walk that have one of the
  suffixes \<open>exts\<close> and can be read, each with the length of its whole content.
\<close>

definition readable_matches :: "string set \<Rightarrow> string list \<Rightarrow> file_entry list \<Rightarrow> (string \<times> nat) list" where
  "readable_matches exts rel fs =
     concat (map (\<lambda>f. if suffix (fname f) \<in> exts
                        then (case fcontent f of
                                None \<Rightarrow> []
                              | Some content \<Rightarrow> [(join_parts (rel @ [fname f]), length content)])
                        else []) fs)"

definition all_readable_matches ::
  "string set \<Rightarrow> (string list \<times> file_entry list) list \<Rightarrow> (string \<times> nat) list" where
  "all_readable_matches exts yielded =
     concat (map (\<lambda>(rel, fs). readable_matches exts rel fs) yielded)"

text \<open>A filesystem with the workspace \<open>/home/user\<close> and, outside it, the directory
  \<open>/home/other\<close> with one file.\<close>

definition sample_fs :: "string \<Rightarrow> fs_entry" where
  "sample_fs p =
     (if p = ''/home/user'' then IsDir (Dir ''user'' False (Some 10) True [] [])
      else if p = ''/home/other''
        then IsDir (Dir ''other'' False (Some 11) True [] [File ''secret.txt'' (Some ''hunter2'')])
      else Absent)"

text \<open>Whether an effect is a call of the model backend.\<close>

fun is_model_call :: "effect \<Rightarrow> bool" where
  "is_model_call (ModelCalled m p) = True"
| "is_model_call e = False"

text \<open>A sample entry (path, preview) is small when the preview has at most 2000
  characters and at most 50 lines.\<close>

abbreviation (input) small_preview :: "string \<times> string \<Rightarrow> bool" where
  "small_preview s \<equiv> length (snd s) \<le> 2000 \<and> length (split_lines (snd s)) \<le> 50"

text \<open>A workspace \<open>/ws\<close> with one Python file of two lines.\<close>

definition sample_project :: "string \<Rightarrow> fs_entry" where
  "sample_project p =
     (if p = ''/ws''
      then IsDir (Dir ''ws'' False (Some 1) True []
                   [File ''main.py'' (Some ''# TODO: fix\<newline>x = 1\<newline>'')])
      else Absent)"

chapter \<open>Properties\<close>

section \<open>The path sandbox\<close>

lemma relative_to_Some_iff: "relative_to cs as = Some rest \<longleftrightarrow> cs = as @ rest"
  by (induction cs as rule: relative_to.induct) auto

lemma relative_to_None_iff: "relative_to cs as = None \<longleftrightarrow> (\<nexists>rest. cs = as @ rest)"
proof -
  have "relative_to cs as = None \<longleftrightarrow> (\<nexists>rest. relative_to cs as = Some rest)"
    by auto
  then show ?thesis
    by (simp add: relative_to_Some_iff)
qed

lemma startswith_iff: "startswith s p \<longleftrightarrow> (\<exists>v. s = p @ v)"
  by (induction s p rule: startswith.induct) auto

lemma str_in_iff: "str_in pat s \<longleftrightarrow> (\<exists>u v. s = u @ pat @ v)"
proof (induction s)
  case Nil
  then show ?case by auto
next
  case (Cons c cs)
  show ?case
  proof
    assume "str_in pat (c # cs)"
    then consider "startswith (c # cs) pat" | "str_in pat cs" by auto
    then show "\<exists>u v. c # cs = u @ pat @ v"
    proof cases
      case 1
      then obtain v where "c # cs = pat @ v" by (auto simp: startswith_iff)
      then have "c # cs = [] @ pat @ v" by simp
      then show ?thesis by blast
    next
      case 2
      then obtain u v where "cs = u @ pat @ v" using Cons.IH by auto
      then have "c # cs = (c # u) @ pat @ v" by simp
      then show ?thesis by blast
    qed
  next
    assume "\<exists>u v. c # cs = u @ pat @ v"
    then obtain u v where uv: "c # cs = u @ pat @ v" by blast
    show "str_in pat (c # cs)"
    proof (cases u)
      case Nil
      with uv have "startswith (c # cs) pat" by (auto simp: startswith_iff)
      then show ?thesis by simp
    next
      case (Cons d u')
      with uv have "cs = u' @ pat @ v" by simp
      then have "str_in pat cs" using Cons.IH by blast
      then show ?thesis by simp
    qed
  qed
qed

text \<open>
  Claim C1. Whenever the resolved form of the requested path is neither the resolved
  authorized root nor below it (its components do not start with the root's components),
  \<open>validate_safe_path\<close> raises the HTTP 403 error "Path outside allowed workspace root"
  and returns no path. The test is on the components of the resolved forms, whatever the
  raw string looked like.
\<close>

theorem validate_safe_path_outside_root:
  assumes "resolve requested_path = Inr resolved"
    and "allowed_root resolve WORKSPACE_ROOT allowed_base = Inr allowed"
    and "\<nexists>rest. resolved = allowed @ rest"
  shows "validate_safe_path resolve WORKSPACE_ROOT requested_path allowed_base =
           Inl (HTTPException 403 (''Path outside allowed workspace root: '' @ path_str allowed))"
proof -
  from assms(3) have "relative_to resolved allowed = None"
    by (simp add: relative_to_None_iff)
  with assms(1,2) show ?thesis
    by (simp add: validate_safe_path_def)
qed

text \<open>
  The instance: below the workspace \<open>/home/user\<close>, the raw path
  \<open>/home/user/../username/key\<close> resolves to \<open>/home/username/key\<close>. Both the raw and
  the resolved string start with the string \<open>/home/user\<close>, and the path is rejected all
  the same.
\<close>

theorem validate_safe_path_outside_root_witness:
  "sample_resolve ''/home/user/../username/key'' = Inr [''home'', ''username'', ''key'']
   \<and> allowed_root sample_resolve [''home'', ''user''] None = Inr [''home'', ''user'']
   \<and> (\<nexists>rest. [''home'', ''username'', ''key''] = [''home'', ''user''] @ rest)
   \<and> startswith ''/home/user/../username/key'' (path_str [''home'', ''user''])
   \<and> startswith (path_str [''home'', ''username'', ''key'']) (path_str [''home'', ''user''])
   \<and> validate_safe_path sample_resolve [''home'', ''user''] ''/home/user/../username/key'' None
      = Inl (HTTPException 403 ''Path outside allowed workspace root: /home/user'')"
proof -
  have h1: "sample_resolve ''/home/user/../username/key'' = Inr [''home'', ''username'', ''key'']"
    by (simp add: sample_resolve_def posix_resolve_def sample_links_def)
  have h2: "allowed_root sample_resolve [''home'', ''user''] None = Inr [''home'', ''user'']"
    by (simp add: allowed_root_def)
  have h3: "\<nexists>rest. [''home'', ''username'', ''key''] = [''home'', ''user''] @ rest"
    by simp
  have h4: "startswith ''/home/user/../username/key'' (path_str [''home'', ''user''])"
    by simp
  have h5: "startswith (path_str [''home'', ''username'', ''key'']) (path_str [''home'', ''user''])"
    by simp
  have c: "validate_safe_path sample_resolve [''home'', ''user''] ''/home/user/../username/key'' None
      = Inl (HTTPException 403 ''Path outside allowed workspace root: /home/user'')"
    using validate_safe_path_outside_root [OF h1 h2 h3] by simp
  show ?thesis
    by (intro conjI h1 h2 h3 h4 h5 c)
qed

lemma validate_safe_path_symlink_escape:
  "validate_safe_path sample_resolve [''home'', ''user''] ''/home/user/out/passwd'' None
     = Inl (HTTPException 403 ''Path outside allowed workspace root: /home/user'')"
  by (simp add: validate_safe_path_def sample_resolve_def posix_resolve_def sample_links_def
      allowed_root_def)

lemma validate_safe_path_accepts:
  "validate_safe_path sample_resolve [''home'', ''user''] ''/home/user/notes.txt'' None
     = Inr [''home'', ''user'', ''notes.txt'']"
  by (simp add: validate_safe_path_def sample_resolve_def posix_resolve_def sample_links_def
      allowed_root_def sensitive_patterns_def)

text \<open>
  Claim C7. Whenever the resolved path is the authorized root or below it and its string
  form contains one of the five denylisted substrings, \<open>validate_safe_path\<close> raises the
  HTTP 403 error "Access to system directories denied".
\<close>

theorem validate_safe_path_sensitive:
  assumes "resolve requested_path = Inr resolved"
    and "allowed_root resolve WORKSPACE_ROOT allowed_base = Inr allowed"
    and "resolved = allowed @ rest"
    and "pattern \<in> set sensitive_patterns"
    and "path_str resolved = u @ pattern @ v"
  shows "validate_safe_path resolve WORKSPACE_ROOT requested_path allowed_base =
           Inl (HTTPException 403 ''Access to system directories denied'')"
proof -
  from assms(3) have rel: "relative_to resolved allowed = Some rest"
    by (simp add: relative_to_Some_iff)
  from assms(5) have "str_in pattern (path_str resolved)"
    unfolding str_in_iff by blast
  with assms(4) have "list_ex (\<lambda>pattern. str_in pattern (path_str resolved)) sensitive_patterns"
    unfolding list_ex_iff by blast
  with assms(1,2) rel show ?thesis
    by (simp add: validate_safe_path_def)
qed

theorem validate_safe_path_sensitive_witness:
  "sample_resolve ''/home/user/.ssh/id_rsa'' = Inr [''home'', ''user'', ''.ssh'', ''id_rsa'']
   \<and> allowed_root sample_resolve [''home'', ''user''] None = Inr [''home'', ''user'']
   \<and> [''home'', ''user'', ''.ssh'', ''id_rsa''] = [''home'', ''user''] @ [''.ssh'', ''id_rsa'']
   \<and> ''/.ssh/'' \<in> set sensitive_patterns
   \<and> path_str [''home'', ''user'', ''.ssh'', ''id_rsa''] = ''/home/user'' @ ''/.ssh/'' @ ''id_rsa''
   \<and> validate_safe_path sample_resolve [''home'', ''user''] ''/home/user/.ssh/id_rsa'' None
      = Inl (HTTPException 403 ''Access to system directories denied'')"
proof -
  have h1: "sample_resolve ''/home/user/.ssh/id_rsa'' = Inr [''home'', ''user'', ''.ssh'', ''id_rsa'']"
    by (simp add: sample_resolve_def posix_resolve_def sample_links_def)
  have h2: "allowed_root sample_resolve [''home'', ''user''] None = Inr [''home'', ''user'']"
    by (simp add: allowed_root_def)
  have h3: "[''home'', ''user'', ''.ssh'', ''id_rsa''] = [''home'', ''user''] @ [''.ssh'', ''id_rsa'']"
    by simp
  have h4: "''/.ssh/'' \<in> set sensitive_patterns"
    by (simp add: sensitive_patterns_def)
  have h5: "path_str [''home'', ''user'', ''.ssh'', ''id_rsa''] = ''/home/user'' @ ''/.ssh/'' @ ''id_rsa''"
    by simp
  show ?thesis
    by (intro conjI h1 h2 h3 h4 h5 validate_safe_path_sensitive [OF h1 h2 h3 h4 h5])
qed

section \<open>The stream translator\<close>







lemma is_error_on_exception: "is_error (on_exception e)"
  by (cases e) auto











text \<open>
  Claim C8. On the three lines \<open>{"message":{"content":"a"}}\<close>, \<open>garbage\<close> and
  \<open>{"message":{"content":"b"},"done":true}\<close>, where \<open>json.loads\<close> reads the first and
  the third as the JSON objects they spell and rejects the second, the translator yields
  content \<open>a\<close>, content \<open>b\<close> and done, in that order: the malformed line yields nothing
  and the stream goes on after it.
\<close>

theorem generate_sample_stream:
  assumes \<open>loads ''{"message":{"content":"a"}}'' =
             Inr (JObj [(''message'', JObj [(''content'', JStr ''a'')])])\<close>
    and \<open>loads ''garbage'' = Inl (JSONDecodeError m)\<close>
    and \<open>loads ''{"message":{"content":"b"},"done":true}'' =
             Inr (JObj [(''message'', JObj [(''content'', JStr ''b'')]), (''done'', JBool True)])\<close>
  shows \<open>generate loads [Line ''{"message":{"content":"a"}}'', Line ''garbage'',
             Line ''{"message":{"content":"b"},"done":true}''] =
           [Content (JStr ''a''), Content (JStr ''b''), Done]\<close>
  using assms
  by (simp add: blank_def is_space_def process_chunk_def content_events_def done_events_def)

theorem generate_sample_stream_witness:
  \<open>sample_loads ''{"message":{"content":"a"}}'' =
      Inr (JObj [(''message'', JObj [(''content'', JStr ''a'')])])
   \<and> sample_loads ''garbage'' = Inl (JSONDecodeError ''Expecting value: line 1 column 1 (char 0)'')
   \<and> sample_loads ''{"message":{"content":"b"},"done":true}'' =
      Inr (JObj [(''message'', JObj [(''content'', JStr ''b'')]), (''done'', JBool True)])
   \<and> generate sample_loads [Line ''{"message":{"content":"a"}}'', Line ''garbage'',
        Line ''{"message":{"content":"b"},"done":true}''] =
      [Content (JStr ''a''), Content (JStr ''b''), Done]\<close>
proof -
  have h1: \<open>sample_loads ''{"message":{"content":"a"}}'' =
      Inr (JObj [(''message'', JObj [(''content'', JStr ''a'')])])\<close>
    by (simp add: sample_loads_def)
  have h2: \<open>sample_loads ''garbage'' =
      Inl (JSONDecodeError ''Expecting value: line 1 column 1 (char 0)'')\<close>
    by (simp add: sample_loads_def)
  have h3: \<open>sample_loads ''{"message":{"content":"b"},"done":true}'' =
      Inr (JObj [(''message'', JObj [(''content'', JStr ''b'')]), (''done'', JBool True)])\<close>
    by (simp add: sample_loads_def)
  show ?thesis
    by (intro conjI h1 h2 h3 generate_sample_stream [OF h1 h2 h3])
qed




section \<open>The workspace scanner\<close>

lemma record_dir_limits:
  assumes "length (directories s) = total_dirs s" and "total_dirs s \<le> MAX_DIRS"
  shows "length (directories (record_dir r s)) = total_dirs (record_dir r s)
         \<and> total_dirs (record_dir r s) \<le> MAX_DIRS
         \<and> files (record_dir r s) = files s \<and> total_files (record_dir r s) = total_files s
         \<and> truncated (record_dir r s) = truncated s"
  using assms by (simp add: record_dir_def)

lemma record_files_limits:
  assumes "length (files s) = total_files s" and "total_files s \<le> MAX_FILES"
  shows "length (files (record_files r names s)) = total_files (record_files r names s)
         \<and> total_files (record_files r names s) \<le> MAX_FILES
         \<and> directories (record_files r names s) = directories s
         \<and> total_dirs (record_files r names s) = total_dirs s
         \<and> truncated (record_files r names s) = truncated s"
  using assms by (induction r names s rule: record_files.induct) auto

lemma record_files_full:
  "total_files s = MAX_FILES \<Longrightarrow> total_files (record_files r names s) = MAX_FILES"
  by (induction names) auto

lemma within_limits_record:
  assumes "within_limits s"
  shows "within_limits (record_files r names (record_dir r' s))"
proof -
  from assms have a: "length (directories s) = total_dirs s" "total_dirs s \<le> MAX_DIRS"
    "length (files s) = total_files s" "total_files s \<le> MAX_FILES"
    by (auto simp: within_limits_def)
  note d = record_dir_limits [OF a(1,2), of r']
  from d a(3,4) have "length (files (record_dir r' s)) = total_files (record_dir r' s)"
    "total_files (record_dir r' s) \<le> MAX_FILES" by auto
  note f = record_files_limits [OF this, of r names]
  show ?thesis
  proof (cases "truncated s")
    case False
    with d f show ?thesis by (auto simp: within_limits_def)
  next
    case True
    with assms have "total_files s = MAX_FILES \<or> total_dirs s = MAX_DIRS"
      by (auto simp: within_limits_def)
    then show ?thesis
    proof
      assume "total_dirs s = MAX_DIRS"
      then have "total_dirs (record_dir r' s) = MAX_DIRS" by (simp add: record_dir_def)
      with d f show ?thesis by (auto simp: within_limits_def)
    next
      assume t: "total_files s = MAX_FILES"
      with d have "total_files (record_files r names (record_dir r' s)) = MAX_FILES"
        by (simp add: record_files_full)
      with d f show ?thesis by (auto simp: within_limits_def)
    qed
  qed
qed

lemma within_limits_truncate:
  assumes "within_limits s" and "total_files s \<ge> MAX_FILES \<or> total_dirs s \<ge> MAX_DIRS"
  shows "within_limits (s\<lparr>truncated := True\<rparr>)"
  using assms by (auto simp: within_limits_def)

lemma walk_within_limits:
  "within_limits (struct st) \<Longrightarrow> within_limits (struct (walk max_depth rel d st))"
  "within_limits (struct st) \<Longrightarrow> within_limits (struct (walk_subdirs max_depth rel ds st))"
proof (induction max_depth rel d st and max_depth rel ds st rule: walk_walk_subdirs.induct)
  case (1 max_depth rel name link ino ok dirs fs st)
  then show ?case
    by (auto simp: Let_def within_limits_record within_limits_truncate split: option.splits)
next
  case (2 max_depth rel st)
  then show ?case by simp
next
  case (3 max_depth rel d ds st)
  then show ?case by simp
qed

lemma scan_within_limits: "within_limits (scan_workspace_structure fs p d)"
proof -
  have "within_limits (struct scan_start)"
    by (simp add: scan_start_def empty_structure_def within_limits_def)
  then show ?thesis
    by (auto simp: scan_workspace_structure_def scan_run_def walk_within_limits
        split: fs_entry.splits)
qed

lemma record_files_closed:
  "record_files r names s =
     s\<lparr>files := files s @ map (\<lambda>file. if r \<noteq> ''.'' then os_path_join r file else file)
                            (take (MAX_FILES - total_files s) names),
       total_files := total_files s + min (length names) (MAX_FILES - total_files s)\<rparr>"
proof (induction r names s rule: record_files.induct)
  case (1 rel_root s)
  then show ?case by simp
next
  case (2 rel_root f rest s)
  show ?case
  proof (cases "total_files s < MAX_FILES")
    case True
    then obtain k where k: "MAX_FILES - total_files s = Suc k" "MAX_FILES - (total_files s + 1) = k"
      by (metis Suc_diff_Suc Suc_eq_plus1 diff_diff_left)
    with True 2 show ?thesis by simp
  next
    case False
    with 2 show ?thesis by simp
  qed
qed

lemma length_numbered_files: "length (numbered_files n) = n"
  by (simp add: numbered_files_def)


text \<open>What the ceilings do give, for every filesystem, workspace path and depth limit:
  \<open>len(files) = total_files\<close>, never more than \<open>MAX_FILES\<close>;
  \<open>len(directories) = total_dirs\<close>, never more than \<open>MAX_DIRS\<close>; and \<open>truncated\<close> is true
  only when one of the two ceilings has been reached exactly.\<close>

lemma scan_respects_ceilings:
  "length (files (scan_workspace_structure fs workspace_path max_depth))
     = total_files (scan_workspace_structure fs workspace_path max_depth)
   \<and> total_files (scan_workspace_structure fs workspace_path max_depth) \<le> MAX_FILES
   \<and> length (directories (scan_workspace_structure fs workspace_path max_depth))
     = total_dirs (scan_workspace_structure fs workspace_path max_depth)
   \<and> total_dirs (scan_workspace_structure fs workspace_path max_depth) \<le> MAX_DIRS
   \<and> (truncated (scan_workspace_structure fs workspace_path max_depth) \<longrightarrow>
        total_files (scan_workspace_structure fs workspace_path max_depth) = MAX_FILES
        \<or> total_dirs (scan_workspace_structure fs workspace_path max_depth) = MAX_DIRS)"
  using scan_within_limits [of fs workspace_path max_depth]
  unfolding within_limits_def by blast

text \<open>Where the walk goes on after the file ceiling is reached, the test at the top of the
  next iteration sets \<open>truncated\<close>: a workspace with 10,000 files and one subdirectory.\<close>

lemma scan_truncated_example:
  "truncated (scan_workspace_structure
        (\<lambda>p. IsDir (Dir ''ws'' False (Some 1) True [Dir ''a'' False (Some 2) True [] []]
           (numbered_files 10000))) ''ws'' 4)
   \<and> total_files (scan_workspace_structure
        (\<lambda>p. IsDir (Dir ''ws'' False (Some 1) True [Dir ''a'' False (Some 2) True [] []]
           (numbered_files 10000))) ''ws'' 4) = 10000"
  by (simp add: length_numbered_files MAX_FILES_def MAX_DIRS_def scan_workspace_structure_def
      scan_run_def scan_start_def empty_structure_def ignore_dirs_def record_dir_def
      record_files_closed)

text \<open>
  Claim C4 does not hold of the code. The ceilings are tested at the top of an iteration
  of the loop over \<open>os.walk\<close> (lines 74--76), where \<open>truncated\<close> is set; the loop over
  the files of a directory only stops appending at \<open>MAX_FILES\<close> (line 103) and sets
  nothing. When the ceiling is passed in the last directory the walk yields, no further
  iteration tests it. A workspace that is one plain directory of 10,001 files holds more
  than \<open>MAX_FILES\<close> files; the scan returns exactly 10,000 of them, the last one is
  dropped, and \<open>truncated\<close> is false.
\<close>

theorem scan_flat_overflow:
  "MAX_FILES < tree_files (Dir ''ws'' False (Some 1) True [] (numbered_files 10001))
   \<and> truncated (scan_workspace_structure
        (\<lambda>p. IsDir (Dir ''ws'' False (Some 1) True [] (numbered_files 10001))) ''ws'' 4) = False
   \<and> length (files (scan_workspace_structure
        (\<lambda>p. IsDir (Dir ''ws'' False (Some 1) True [] (numbered_files 10001))) ''ws'' 4)) = 10000
   \<and> total_files (scan_workspace_structure
        (\<lambda>p. IsDir (Dir ''ws'' False (Some 1) True [] (numbered_files 10001))) ''ws'' 4) = 10000"
  by (simp add: length_numbered_files MAX_FILES_def MAX_DIRS_def scan_workspace_structure_def
      scan_run_def scan_start_def empty_structure_def ignore_dirs_def record_dir_def
      record_files_closed)

text \<open>
  Claim C10. When the workspace path names nothing on the filesystem, the scan returns
  the empty structure; and the scan of an empty directory at that path returns the same
  structure, so the result alone does not tell the two apart.
\<close>

theorem scan_absent:
  assumes "fs workspace_path = Absent"
  shows "scan_workspace_structure fs workspace_path max_depth =
           \<lparr>directories = [], files = [], total_files = 0, total_dirs = 0, truncated = False\<rparr>
         \<and> scan_workspace_structure (fs(workspace_path := IsDir (Dir name link ino ok [] [])))
             workspace_path max_depth = scan_workspace_structure fs workspace_path max_depth"
  using assms
  by (cases ino)
    (auto simp: scan_workspace_structure_def scan_run_def scan_start_def empty_structure_def
      Let_def MAX_FILES_def MAX_DIRS_def record_dir_def)

theorem scan_absent_witness:
  "(\<lambda>p. Absent) ''/no/such/dir'' = Absent
   \<and> scan_workspace_structure (\<lambda>p. Absent) ''/no/such/dir'' 4 =
       \<lparr>directories = [], files = [], total_files = 0, total_dirs = 0, truncated = False\<rparr>
   \<and> scan_workspace_structure
       ((\<lambda>p. Absent)(''/no/such/dir'' := IsDir (Dir ''dir'' False (Some 7) True [] [])))
       ''/no/such/dir'' 4 = scan_workspace_structure (\<lambda>p. Absent) ''/no/such/dir'' 4"
proof -
  have h: "(\<lambda>p. Absent) ''/no/such/dir'' = Absent" by simp
  note t = scan_absent [OF h, where max_depth = 4 and name = "''dir''" and link = False
      and ino = "Some 7" and ok = True]
  show ?thesis
    by (intro conjI h conjunct1 [OF t] conjunct2 [OF t])
qed

text \<open>What the inode guard does give: a directory is recorded only on an inode not seen
  before, so the directories recorded are never more than the distinct inodes met.\<close>

lemma record_files_total_dirs: "total_dirs (record_files r names s) = total_dirs s"
  by (induction r names s rule: record_files.induct) auto

lemma walk_dirs_per_inode:
  "finite (seen_inodes st) \<and> total_dirs (struct st) \<le> card (seen_inodes st) \<Longrightarrow>
     finite (seen_inodes (walk max_depth rel d st))
     \<and> total_dirs (struct (walk max_depth rel d st)) \<le> card (seen_inodes (walk max_depth rel d st))"
  "finite (seen_inodes st) \<and> total_dirs (struct st) \<le> card (seen_inodes st) \<Longrightarrow>
     finite (seen_inodes (walk_subdirs max_depth rel ds st))
     \<and> total_dirs (struct (walk_subdirs max_depth rel ds st))
         \<le> card (seen_inodes (walk_subdirs max_depth rel ds st))"
proof (induction max_depth rel d st and max_depth rel ds st rule: walk_walk_subdirs.induct)
  case (1 max_depth rel name link ino ok dirs fs st)
  then show ?case
    by (auto simp: Let_def record_files_total_dirs record_dir_def split: option.splits)
next
  case (2 max_depth rel st)
  then show ?case by simp
next
  case (3 max_depth rel d ds st)
  then show ?case by simp
qed

lemma scan_dirs_per_inode:
  "total_dirs (scan_workspace_structure fs workspace_path max_depth)
     \<le> card (seen_inodes (scan_run fs workspace_path max_depth))"
proof -
  have "finite (seen_inodes scan_start) \<and> total_dirs (struct scan_start) \<le> card (seen_inodes scan_start)"
    by (simp add: scan_start_def empty_structure_def)
  then show ?thesis
    using walk_dirs_per_inode(1)
    by (auto simp: scan_workspace_structure_def scan_run_def split: fs_entry.splits)
qed

text \<open>
  Claim C5 does not hold of the code. When the inode of a yielded directory is already in
  \<open>seen_inodes\<close>, the body leaves with \<open>continue\<close> and does not empty \<open>dirs\<close> (as it
  does at the depth limit), so \<open>os.walk\<close> still descends into the subdirectories. In the
  first tree \<open>b\<close> shows the physical directory \<open>a\<close> a second time (inode 2, with the
  same subdirectory \<open>x\<close>, inode 3): the walk enters \<open>b\<close> and then \<open>b/x\<close>. In the second
  tree \<open>b\<close> carries the inode number of \<open>a\<close> and holds a subdirectory \<open>y\<close> with a new
  inode: \<open>b\<close> and its file are passed over, and \<open>b/y\<close> and its file are recorded.
\<close>

theorem scan_descends_below_seen_inode:
  "walked (scan_run
      (\<lambda>p. IsDir (Dir ''ws'' False (Some 1) True
         [Dir ''a'' False (Some 2) True [Dir ''x'' False (Some 3) True [] []] [],
          Dir ''b'' False (Some 2) True [Dir ''x'' False (Some 3) True [] []] []] []))
      ''ws'' 4) = [''.'', ''a'', ''a/x'', ''b'', ''b/x'']
   \<and> scan_workspace_structure
      (\<lambda>p. IsDir (Dir ''ws'' False (Some 1) True
         [Dir ''a'' False (Some 2) True [] [File ''f'' (Some [])],
          Dir ''b'' False (Some 2) True
            [Dir ''y'' False (Some 5) True [] [File ''g'' (Some [])]] [File ''k'' (Some [])]] []))
      ''ws'' 4
     = \<lparr>directories = [''a'', ''b/y''], files = [''a/f'', ''b/y/g''],
        total_files = 2, total_dirs = 2, truncated = False\<rparr>"
  by (simp add: MAX_FILES_def MAX_DIRS_def scan_workspace_structure_def scan_run_def
      scan_start_def empty_structure_def ignore_dirs_def record_dir_def os_path_join_def)

section \<open>The tool dispatcher and the content-reading handlers\<close>

text \<open>
  Claim C2 does not hold of the code. \<open>run_tool\<close> hands \<open>workspacePath\<close> to the handler
  as it arrives: neither the dispatcher nor a handler calls \<open>validate_safe_path\<close>. With
  the workspace root \<open>/home/user\<close>, the path sandbox rejects \<open>/home/other\<close>; the
  request for \<open>list_files\<close> on \<open>/home/other\<close> is answered with success, after the scan
  of that directory and a model call whose prompt names the file found there.
\<close>

theorem run_tool_skips_sandbox:
  "validate_safe_path sample_resolve [''home'', ''user''] ''/home/other'' None
     = Inl (HTTPException 403 ''Path outside allowed workspace root: /home/user'')
   \<and> run_tool sample_fs (\<lambda>m p. Reply 200 (Inr (JObj [(''response'', JStr ''ok'')])))
        \<lparr>toolName = ''list_files'', workspacePath = ''/home/other'', activeSheetData = None,
         model = ''dummy-model''\<rparr>
     = (Inr \<lparr>success = True, tool = ''list_files'', result = JStr ''ok''\<rparr>,
        [Scanned ''/home/other'' [''.''],
         ModelCalled ''dummy-model'' (ListFilesPrompt 1 0 [(''.txt'', 1, [''secret.txt''])])])"
  by (simp add: validate_safe_path_def sample_resolve_def posix_resolve_def sample_links_def
      allowed_root_def run_tool_def tool_list_files_def sample_fs_def scan_run_def scan_start_def
      empty_structure_def MAX_FILES_def MAX_DIRS_def ignore_dirs_def record_dir_def
      by_extension_def extension_def suffix_def path_name_def run_ollama_model_def Let_def)

text \<open>
  Claim C3 does not hold of the code. \<open>run_ollama_model\<close> turns every exception and every
  status other than 200 into the text it returns, and \<open>run_tool\<close> wraps that text as the
  result of a successful run: with the backend unreachable, and with the backend
  answering 503, the response is \<open>{success: true, tool, result: "Error ..."}\<close>.
\<close>

theorem run_tool_masks_backend_failure:
  "run_tool sample_fs (\<lambda>m p. Unreachable (RequestError ''All connection attempts failed''))
        \<lparr>toolName = ''summarize_workspace'', workspacePath = ''/home/user'',
         activeSheetData = None, model = ''dummy-model''\<rparr>
     = (Inr \<lparr>success = True, tool = ''summarize_workspace'',
             result = JStr ''Error calling model: All connection attempts failed''\<rparr>,
        [Scanned ''/home/user'' [''.''],
         ModelCalled ''dummy-model'' (SummarizeWorkspacePrompt 0 [] 0 [])])
   \<and> run_tool sample_fs (\<lambda>m p. Reply 503 (Inl (JSONDecodeError ''Expecting value'')))
        \<lparr>toolName = ''summarize_workspace'', workspacePath = ''/home/user'',
         activeSheetData = None, model = ''dummy-model''\<rparr>
     = (Inr \<lparr>success = True, tool = ''summarize_workspace'',
             result = JStr ''Error: Model returned status 503''\<rparr>,
        [Scanned ''/home/user'' [''.''],
         ModelCalled ''dummy-model'' (SummarizeWorkspacePrompt 0 [] 0 [])])"
  by (simp add: run_tool_def tool_summarize_workspace_def sample_fs_def scan_run_def scan_start_def
      empty_structure_def MAX_FILES_def MAX_DIRS_def ignore_dirs_def record_dir_def
      run_ollama_model_def Let_def string_of_nat.simps)

text \<open>Whatever the backend does, a request with a model and a known tool name is
  answered with \<open>success = True\<close>.\<close>

lemma run_tool_always_success:
  assumes "model request \<noteq> []"
    and "toolName request \<in> {''summarize_workspace'', ''list_files'', ''scan_todos'',
           ''analyze_codebase'', ''generate_readme'', ''summarize_csv''}"
  shows "\<exists>r. fst (run_tool fs ollama request)
             = Inr \<lparr>success = True, tool = toolName request, result = r\<rparr>"
  using assms
  by (auto simp: run_tool_def Let_def split: prod.splits)

lemma files_read_append: "files_read (xs @ ys) = files_read xs @ files_read ys"
  by (induction xs rule: files_read.induct) auto

lemma readable_matches_Cons:
  "readable_matches exts rel (f # fs) =
     (if suffix (fname f) \<in> exts
      then (case fcontent f of None \<Rightarrow> []
            | Some content \<Rightarrow> [(join_parts (rel @ [fname f]), length content)])
      else []) @ readable_matches exts rel fs"
  by (simp add: readable_matches_def)

lemma scan_todos_files_reads:
  "files_read (snd (scan_todos_files rel fs acc)) =
     files_read (snd acc) @ readable_matches todo_extensions rel fs"
proof (induction rel fs acc rule: scan_todos_files.induct)
  case (1 rel acc)
  then show ?case by (simp add: readable_matches_def)
next
  case (2 rel f fs todos effects)
  then show ?case
    by (auto simp: readable_matches_Cons files_read_append split: option.splits)
qed

lemma scan_todos_dirs_reads:
  "files_read (snd (scan_todos_dirs yielded acc)) =
     files_read (snd acc) @ all_readable_matches todo_extensions yielded"
  by (induction yielded acc rule: scan_todos_dirs.induct)
    (auto simp: all_readable_matches_def scan_todos_files_reads)

lemma tool_scan_todos_reads:
  "files_read (snd (tool_scan_todos fs ollama ws model_name)) =
     all_readable_matches todo_extensions (os_walk_pruned fs ws)"
proof -
  obtain todos effects where
    r: "scan_todos_dirs (os_walk_pruned fs ws) ([], [Walked ws]) = (todos, effects)"
    by (cases "scan_todos_dirs (os_walk_pruned fs ws) ([], [Walked ws])")
  from scan_todos_dirs_reads [of "os_walk_pruned fs ws" "([], [Walked ws])"] r
  have "files_read effects = all_readable_matches todo_extensions (os_walk_pruned fs ws)"
    by simp
  with r show ?thesis
    by (simp add: tool_scan_todos_def Let_def files_read_append)
qed

lemma analyze_files_reads:
  assumes "length files_analyzed = length (files_read effects)" and "length files_analyzed < 20"
  shows "files_read (snd (analyze_files rel fs (files_analyzed, effects))) =
           take 20 (files_read effects @ readable_matches code_extensions rel fs)
         \<and> length (fst (analyze_files rel fs (files_analyzed, effects))) =
           length (files_read (snd (analyze_files rel fs (files_analyzed, effects))))"
  using assms
proof (induction rel fs "(files_analyzed, effects)" arbitrary: files_analyzed effects
    rule: analyze_files.induct)
  case (1 rel)
  then show ?case by (simp add: readable_matches_def)
next
  case (2 rel f fs files_analyzed effects)
  show ?case
  proof (cases "suffix (fname f) \<in> code_extensions")
    case False
    with 2 show ?thesis by (simp add: readable_matches_Cons)
  next
    case ext: True
    show ?thesis
    proof (cases "fcontent f")
      case None
      with ext 2(2) [OF _ None] 2(4,5) show ?thesis
        by (simp add: readable_matches_Cons files_read_append)
    next
      case (Some content)
      show ?thesis
      proof (cases "length files_analyzed + 1 \<ge> 20")
        case True
        with 2(4,5) have "length (files_read effects) = 19" by simp
        with ext Some True 2(4,5) show ?thesis
          by (simp add: readable_matches_Cons files_read_append Let_def)
      next
        case False
        with ext Some 2(3) [OF _ Some refl refl] 2(4,5) show ?thesis
          by (simp add: readable_matches_Cons files_read_append Let_def)
      qed
    qed
  qed
qed

lemma analyze_dirs_reads:
  assumes "length files_analyzed = length (files_read effects)" and "length files_analyzed < 20"
  shows "files_read (snd (analyze_dirs yielded (files_analyzed, effects))) =
           take 20 (files_read effects @ all_readable_matches code_extensions yielded)
         \<and> length (fst (analyze_dirs yielded (files_analyzed, effects))) =
           length (files_read (snd (analyze_dirs yielded (files_analyzed, effects))))"
  using assms
proof (induction yielded arbitrary: files_analyzed effects)
  case Nil
  then show ?case by (simp add: all_readable_matches_def)
next
  case (Cons y yielded)
  obtain rel fs where y: "y = (rel, fs)" by (cases y)
  obtain fa ef where r: "analyze_files rel fs (files_analyzed, effects) = (fa, ef)"
    by (cases "analyze_files rel fs (files_analyzed, effects)")
  define X where "X = files_read effects @ readable_matches code_extensions rel fs"
  define Z where "Z = all_readable_matches code_extensions yielded"
  from analyze_files_reads [OF Cons.prems, of rel fs] r
  have fr: "files_read ef = take 20 X" and len: "length fa = length (files_read ef)"
    by (simp_all add: X_def)
  have all: "files_read effects @ all_readable_matches code_extensions (y # yielded) = X @ Z"
    by (simp add: all_readable_matches_def y X_def Z_def)
  have step: "analyze_dirs (y # yielded) (files_analyzed, effects) =
      (if length fa \<ge> 20 then (fa, ef) else analyze_dirs yielded (fa, ef))"
    using y r by simp
  show ?case
  proof (cases "length fa \<ge> 20")
    case True
    with len fr have "length X \<ge> 20" by simp
    then have "take 20 (X @ Z) = take 20 X" by simp
    with fr have "files_read ef = take 20 (X @ Z)" by simp
    with True len show ?thesis
      unfolding step all by (simp del: take_append)
  next
    case False
    then have lt: "length fa < 20" by simp
    with len fr have "length X < 20" by simp
    with fr have short: "files_read ef = X" by simp
    from Cons.IH [OF len lt] short have
      "files_read (snd (analyze_dirs yielded (fa, ef))) = take 20 (X @ Z)"
      "length (fst (analyze_dirs yielded (fa, ef))) =
         length (files_read (snd (analyze_dirs yielded (fa, ef))))"
      by (simp_all add: Z_def)
    with False show ?thesis
      unfolding step all by (simp del: take_append)
  qed
qed

lemma tool_analyze_codebase_reads:
  "files_read (snd (tool_analyze_codebase fs ollama ws model_name)) =
     take 20 (all_readable_matches code_extensions (os_walk_pruned fs ws))"
proof -
  obtain fa ef where
    r: "analyze_dirs (os_walk_pruned fs ws) ([], [Walked ws]) = (fa, ef)"
    by (cases "analyze_dirs (os_walk_pruned fs ws) ([], [Walked ws])")
  from analyze_dirs_reads [of "[]" "[Walked ws]" "os_walk_pruned fs ws"] r
  have "files_read ef = take 20 (all_readable_matches code_extensions (os_walk_pruned fs ws))"
    by simp
  with r show ?thesis
    by (simp add: tool_analyze_codebase_def Let_def files_read_append)
qed

lemma split_lines_nonempty: "split_lines s \<noteq> []"
  by (induction s) (auto split: list.splits)

lemma length_split_lines: "length (split_lines s) = Suc (count_list s (CHR 0x0A))"
proof (induction s)
  case Nil
  then show ?case by simp
next
  case (Cons c cs)
  then show ?case
    using split_lines_nonempty [of cs] by (auto split: list.splits)
qed

lemma split_lines_no_newline: "l \<in> set (split_lines s) \<Longrightarrow> CHR 0x0A \<notin> set l"
proof (induction s arbitrary: l)
  case Nil
  then show ?case by simp
next
  case (Cons c cs)
  then show ?case
    by (auto split: if_splits list.splits)
qed

lemma count_list_take_le: "count_list (take n s) x \<le> count_list s x"
proof (induction s arbitrary: n)
  case Nil
  then show ?case by simp
next
  case (Cons c cs)
  then show ?case by (cases n) (auto intro: le_SucI)
qed

lemma count_list_0: "x \<notin> set s \<Longrightarrow> count_list s x = 0"
  by (induction s) auto

lemma count_join_lines:
  assumes "\<forall>l \<in> set ls. CHR 0x0A \<notin> set l"
  shows "count_list (join_lines ls) (CHR 0x0A) = length ls - 1"
  using assms
proof (induction ls rule: join_lines.induct)
  case 1
  then show ?case by simp
next
  case (2 l)
  then show ?case by (simp add: count_list_0)
next
  case (3 l v va)
  then show ?case by (simp add: count_list_0)
qed

lemma preview_of_bounds:
  "length (preview_of content) \<le> 2000 \<and> length (split_lines (preview_of content)) \<le> 50"
proof -
  let ?ls = "take 50 (split_lines content)"
  have "\<forall>l \<in> set ?ls. CHR 0x0A \<notin> set l"
    using split_lines_no_newline by (meson in_set_takeD)
  then have "count_list (join_lines ?ls) (CHR 0x0A) = length ?ls - 1"
    by (rule count_join_lines)
  also have "\<dots> \<le> 49" by simp
  finally have "count_list (join_lines ?ls) (CHR 0x0A) \<le> 49" .
  with count_list_take_le [of 2000 "join_lines ?ls" "CHR 0x0A"]
  have "count_list (preview_of content) (CHR 0x0A) \<le> 49"
    unfolding preview_of_def by linarith
  then show ?thesis
    by (simp add: length_split_lines) (simp add: preview_of_def)
qed

lemma analyze_files_previews:
  "list_all small_preview (fst acc) \<Longrightarrow> list_all small_preview (fst (analyze_files rel fs acc))"
proof (induction rel fs acc rule: analyze_files.induct)
  case (1 rel acc)
  then show ?case by simp
next
  case (2 rel f fs files_analyzed effects)
  then show ?case
    by (auto simp: Let_def preview_of_bounds split: option.splits)
qed

lemma analyze_dirs_previews:
  "list_all small_preview (fst acc) \<Longrightarrow> list_all small_preview (fst (analyze_dirs yielded acc))"
proof (induction yielded acc rule: analyze_dirs.induct)
  case (1 acc)
  then show ?case by simp
next
  case (2 rel fs rest acc)
  from 2(2) have a: "list_all small_preview (fst (analyze_files rel fs acc))"
    by (rule analyze_files_previews)
  obtain fa ef where r: "analyze_files rel fs acc = (fa, ef)"
    by (cases "analyze_files rel fs acc")
  show ?case
  proof (cases "length fa \<ge> 20")
    case True
    with a r show ?thesis by simp
  next
    case False
    with 2(1) [OF r [symmetric] _] a r show ?thesis by simp
  qed
qed

lemma analyze_workspace_bounds:
  assumes "analyze_dirs (os_walk_pruned fs ws) ([], [Walked ws]) = (files_analyzed, effects)"
  shows "length files_analyzed \<le> 20 \<and> list_all small_preview files_analyzed"
proof -
  from analyze_dirs_reads [of "[]" "[Walked ws]" "os_walk_pruned fs ws"] assms
  have "length files_analyzed =
      length (take 20 (all_readable_matches code_extensions (os_walk_pruned fs ws)))"
    by simp
  then have "length files_analyzed \<le> 20" by simp
  moreover from analyze_dirs_previews [of "([], [Walked ws])" "os_walk_pruned fs ws"] assms
  have "list_all small_preview files_analyzed" by simp
  ultimately show ?thesis by blast
qed

lemma scan_todos_files_no_call:
  "filter is_model_call (snd (scan_todos_files rel fs acc)) = filter is_model_call (snd acc)"
  by (induction rel fs acc rule: scan_todos_files.induct) (auto split: option.splits)

lemma scan_todos_dirs_no_call:
  "filter is_model_call (snd (scan_todos_dirs yielded acc)) = filter is_model_call (snd acc)"
  by (induction yielded acc rule: scan_todos_dirs.induct) (auto simp: scan_todos_files_no_call)

lemma analyze_files_no_call:
  "filter is_model_call (snd (analyze_files rel fs acc)) = filter is_model_call (snd acc)"
  by (induction rel fs acc rule: analyze_files.induct) (auto simp: Let_def split: option.splits)

lemma analyze_dirs_no_call:
  "filter is_model_call (snd (analyze_dirs yielded acc)) = filter is_model_call (snd acc)"
proof (induction yielded acc rule: analyze_dirs.induct)
  case (1 acc)
  then show ?case by simp
next
  case (2 rel fs rest acc)
  obtain fa ef where r: "analyze_files rel fs acc = (fa, ef)"
    by (cases "analyze_files rel fs acc")
  with analyze_files_no_call [of rel fs acc]
  have "filter is_model_call ef = filter is_model_call (snd acc)" by simp
  with 2 [OF r [symmetric]] r show ?case by (cases "length fa \<ge> 20") auto
qed

lemma no_call_not_member:
  assumes "filter is_model_call effects = []"
  shows "ModelCalled m p \<notin> set effects"
proof
  assume "ModelCalled m p \<in> set effects"
  then have "ModelCalled m p \<in> set (filter is_model_call effects)" by simp
  with assms show False by simp
qed

lemma tool_scan_todos_prompt:
  assumes "ModelCalled m (ScanTodosPrompt n ts) \<in> set (snd (tool_scan_todos fs ollama ws model_name))"
  shows "length ts \<le> 50"
proof -
  obtain todos effects where
    r: "scan_todos_dirs (os_walk_pruned fs ws) ([], [Walked ws]) = (todos, effects)"
    by (cases "scan_todos_dirs (os_walk_pruned fs ws) ([], [Walked ws])")
  from scan_todos_dirs_no_call [of "os_walk_pruned fs ws" "([], [Walked ws])"] r
  have "filter is_model_call effects = []" by simp
  then have nc: "ModelCalled m (ScanTodosPrompt n ts) \<notin> set effects"
    by (rule no_call_not_member)
  show ?thesis
  proof (cases "todos = []")
    case True
    with assms r nc show ?thesis by (simp add: tool_scan_todos_def)
  next
    case False
    with assms r nc have "ts = take 50 todos"
      by (simp add: tool_scan_todos_def Let_def)
    then show ?thesis by simp
  qed
qed

lemma tool_analyze_codebase_prompt:
  assumes "ModelCalled m (AnalyzeCodebasePrompt n samples)
             \<in> set (snd (tool_analyze_codebase fs ollama ws model_name))"
  shows "n \<le> 20 \<and> length samples \<le> 20 \<and> list_all small_preview samples"
proof -
  obtain fa ef where
    r: "analyze_dirs (os_walk_pruned fs ws) ([], [Walked ws]) = (fa, ef)"
    by (cases "analyze_dirs (os_walk_pruned fs ws) ([], [Walked ws])")
  from analyze_dirs_no_call [of "os_walk_pruned fs ws" "([], [Walked ws])"] r
  have "filter is_model_call ef = []" by simp
  then have nc: "ModelCalled m (AnalyzeCodebasePrompt n samples) \<notin> set ef"
    by (rule no_call_not_member)
  note b = analyze_workspace_bounds [OF r]
  show ?thesis
  proof (cases "fa = []")
    case True
    with assms r nc show ?thesis by (simp add: tool_analyze_codebase_def)
  next
    case False
    with assms r nc have "n = length fa \<and> samples = fa"
      by (simp add: tool_analyze_codebase_def Let_def)
    with b show ?thesis by simp
  qed
qed


text \<open>
  Claim C9, as the code has it. The bounds are on what goes into the prompt, not on what
  is read. \<open>tool_scan_todos\<close> reads, whole, every readable file with a listed suffix that
  the pruned walk reaches, and lists at most 50 entries in the prompt.
  \<open>tool_analyze_codebase\<close> reads, whole, the first 20 such files, and its prompt holds
  at most 20 previews, each of at most 2000 characters and 50 lines.
\<close>

theorem content_handlers_bounds:
  "files_read (snd (tool_scan_todos fs ollama ws model_name))
     = all_readable_matches todo_extensions (os_walk_pruned fs ws)
   \<and> files_read (snd (tool_analyze_codebase fs ollama ws model_name))
     = take 20 (all_readable_matches code_extensions (os_walk_pruned fs ws))
   \<and> (\<forall>n ts. ModelCalled model_name (ScanTodosPrompt n ts)
                \<in> set (snd (tool_scan_todos fs ollama ws model_name)) \<longrightarrow> length ts \<le> 50)
   \<and> (\<forall>n samples. ModelCalled model_name (AnalyzeCodebasePrompt n samples)
                \<in> set (snd (tool_analyze_codebase fs ollama ws model_name)) \<longrightarrow>
          n \<le> 20 \<and> length samples \<le> 20
          \<and> (\<forall>s \<in> set samples. length (snd s) \<le> 2000 \<and> length (split_lines (snd s)) \<le> 50))"
proof -
  have p1: "\<forall>n ts. ModelCalled model_name (ScanTodosPrompt n ts)
                \<in> set (snd (tool_scan_todos fs ollama ws model_name)) \<longrightarrow> length ts \<le> 50"
    using tool_scan_todos_prompt by blast
  have p2: "\<forall>n samples. ModelCalled model_name (AnalyzeCodebasePrompt n samples)
                \<in> set (snd (tool_analyze_codebase fs ollama ws model_name)) \<longrightarrow>
          n \<le> 20 \<and> length samples \<le> 20
          \<and> (\<forall>s \<in> set samples. length (snd s) \<le> 2000 \<and> length (split_lines (snd s)) \<le> 50)"
  proof (intro allI impI)
    fix n samples
    assume "ModelCalled model_name (AnalyzeCodebasePrompt n samples)
                \<in> set (snd (tool_analyze_codebase fs ollama ws model_name))"
    from tool_analyze_codebase_prompt [OF this]
    show "n \<le> 20 \<and> length samples \<le> 20
          \<and> (\<forall>s \<in> set samples. length (snd s) \<le> 2000 \<and> length (split_lines (snd s)) \<le> 50)"
      by (simp add: list_all_iff)
  qed
  show ?thesis
    by (intro conjI tool_scan_todos_reads tool_analyze_codebase_reads p1 p2)
qed


theorem content_handlers_bounds_witness:
  "ModelCalled ''m'' (ScanTodosPrompt 1
       [\<lparr>todo_file = ''main.py'', todo_line = 1, todo_text = ''# TODO: fix''\<rparr>])
     \<in> set (snd (tool_scan_todos sample_project (\<lambda>m p. Unreachable (RequestError [])) ''/ws'' ''m''))
   \<and> length [\<lparr>todo_file = ''main.py'', todo_line = 1, todo_text = ''# TODO: fix''\<rparr>] \<le> 50
   \<and> ModelCalled ''m'' (AnalyzeCodebasePrompt 1 [(''main.py'', ''# TODO: fix\<newline>x = 1\<newline>'')])
     \<in> set (snd (tool_analyze_codebase sample_project (\<lambda>m p. Unreachable (RequestError [])) ''/ws'' ''m''))
   \<and> length (snd (''main.py'', ''# TODO: fix\<newline>x = 1\<newline>'')) \<le> 2000
   \<and> files_read (snd (tool_scan_todos sample_project (\<lambda>m p. Unreachable (RequestError [])) ''/ws'' ''m''))
     = [(''main.py'', 18)]"
proof -
  note t = content_handlers_bounds
    [of sample_project "\<lambda>m p. Unreachable (RequestError [])" "''/ws''" "''m''"]
  have w: "os_walk_pruned sample_project ''/ws'' =
      [([], [File ''main.py'' (Some ''# TODO: fix\<newline>x = 1\<newline>'')])]"
    by (simp add: os_walk_pruned_def sample_project_def)
  have py: "suffix ''main.py'' = ''.py''"
    by (simp add: suffix_def path_name_def)
  have h1: "ModelCalled ''m'' (ScanTodosPrompt 1
       [\<lparr>todo_file = ''main.py'', todo_line = 1, todo_text = ''# TODO: fix''\<rparr>])
     \<in> set (snd (tool_scan_todos sample_project (\<lambda>m p. Unreachable (RequestError [])) ''/ws'' ''m''))"
    by (simp add: tool_scan_todos_def w py todo_extensions_def lower_def lower_char_def
        strip_def is_space_def Let_def)
  have h2: "ModelCalled ''m'' (AnalyzeCodebasePrompt 1 [(''main.py'', ''# TODO: fix\<newline>x = 1\<newline>'')])
     \<in> set (snd (tool_analyze_codebase sample_project (\<lambda>m p. Unreachable (RequestError [])) ''/ws'' ''m''))"
    by (simp add: tool_analyze_codebase_def w py code_extensions_def preview_of_def Let_def)
  from t h1 have c1: "length [\<lparr>todo_file = ''main.py'', todo_line = 1, todo_text = ''# TODO: fix''\<rparr>] \<le> 50"
    by blast
  from t h2 have "\<forall>s \<in> set [(''main.py'', ''# TODO: fix\<newline>x = 1\<newline>'')].
      length (snd s) \<le> 2000 \<and> length (split_lines (snd s)) \<le> 50"
    by blast
  then have c2: "length (snd (''main.py'', ''# TODO: fix\<newline>x = 1\<newline>'')) \<le> 2000"
    by simp
  from t have "files_read (snd (tool_scan_todos sample_project (\<lambda>m p. Unreachable (RequestError [])) ''/ws'' ''m''))
     = all_readable_matches todo_extensions (os_walk_pruned sample_project ''/ws'')"
    by blast
  then have c3: "files_read (snd (tool_scan_todos sample_project (\<lambda>m p. Unreachable (RequestError [])) ''/ws'' ''m''))
     = [(''main.py'', 18)]"
    by (simp add: w py all_readable_matches_def readable_matches_def todo_extensions_def)
  show ?thesis
    by (intro conjI h1 h2 c1 c2 c3)
qed

text \<open>
  The claim as stated fails: no constants bound the number of files read and the amount
  read from each. For any bound \<open>B\<close>, a workspace with one Python file of \<open>B + 1\<close>
  characters has that file read whole.
\<close>

theorem content_handlers_unbounded_reads:
  "\<not> (\<exists>N B. \<forall>fs ollama ws model_name.
        length (files_read (snd (tool_scan_todos fs ollama ws model_name))) \<le> N
        \<and> (\<forall>r \<in> set (files_read (snd (tool_scan_todos fs ollama ws model_name))). snd r \<le> B)
        \<and> length (files_read (snd (tool_analyze_codebase fs ollama ws model_name))) \<le> N
        \<and> (\<forall>r \<in> set (files_read (snd (tool_analyze_codebase fs ollama ws model_name))). snd r \<le> B))"
proof
  assume "\<exists>N B. \<forall>fs ollama ws model_name.
        length (files_read (snd (tool_scan_todos fs ollama ws model_name))) \<le> N
        \<and> (\<forall>r \<in> set (files_read (snd (tool_scan_todos fs ollama ws model_name))). snd r \<le> B)
        \<and> length (files_read (snd (tool_analyze_codebase fs ollama ws model_name))) \<le> N
        \<and> (\<forall>r \<in> set (files_read (snd (tool_analyze_codebase fs ollama ws model_name))). snd r \<le> B)"
  then obtain N B where bound: "\<And>fs ollama ws model_name.
      \<forall>r \<in> set (files_read (snd (tool_scan_todos fs ollama ws model_name))). snd r \<le> B"
    by blast
  let ?fs = "\<lambda>p::string. IsDir (Dir ''ws'' False (Some 1) True []
                [File ''a.py'' (Some (replicate (Suc B) CHR ''x''))])"
  have "files_read (snd (tool_scan_todos ?fs (\<lambda>m p. Unreachable (RequestError [])) ''ws'' ''m''))
          = [(''a.py'', Suc B)]"
    unfolding tool_scan_todos_reads
    by (simp add: os_walk_pruned_def all_readable_matches_def readable_matches_def suffix_def
        path_name_def todo_extensions_def)
  with bound [of ?fs "\<lambda>m p. Unreachable (RequestError [])" "''ws''" "''m''"]
  show False by simp
qed

end
